theory Spec2Isabelle
  imports Main
begin

section \<open>The PDF conversion plugin: \<^verbatim>\<open>indico_conversion/conversion.py\<close>\<close>

text \<open>
  The module holds one Celery task, \<^verbatim>\<open>submit_attachment\<close>, and two request handlers,
  \<^verbatim>\<open>RHConversionFinished\<close> (the callback of the conversion service) and
  \<^verbatim>\<open>RHConversionCheck\<close> (the polling endpoint). Each is embedded as a function on an
  explicit world: the plugin's state cache, the attachment table, the signals sent and
  the log. Exceptions are values of the type \<open>exc\<close>; a function that may raise returns
  \<open>exc + 'a\<close>.
\<close>

subsection \<open>Python values the module relies on\<close>

datatype exc =
    IndexError
  | ValueError
  | BadRequestKeyError string
  | BadData
  | RequestException
  | MaxRetriesExceededError
  | Retry int int

text \<open>
  \<open>Retry countdown r\<close> is Celery's \<^verbatim>\<open>Retry\<close> signal: the task has been sent again, to
  start after \<open>countdown\<close> seconds with \<^verbatim>\<open>request.retries = r\<close>.
\<close>

definition getitem :: "'a list \<Rightarrow> int \<Rightarrow> exc + 'a" where
  \<comment> \<open>\<^verbatim>\<open>xs[i]\<close>: an index from \<open>- len\<close> to \<open>- 1\<close> counts from the end; outside
      \<open>- len\<close> to \<open>len - 1\<close> the lookup raises.\<close>
  "getitem xs i =
     (if 0 \<le> i \<and> i < int (length xs) then Inr (xs ! nat i)
      else if i < 0 \<and> - int (length xs) \<le> i then Inr (xs ! nat (int (length xs) + i))
      else Inl IndexError)"

definition digit_char :: "nat \<Rightarrow> char" where
  \<comment> \<open>The character of a decimal digit: code 48 for 0 up to 57 for 9.\<close>
  "digit_char d = char_of (48 + d)"

definition digit_val :: "char \<Rightarrow> nat option" where
  "digit_val c =
     (let k = (of_char c :: nat) in if 48 \<le> k \<and> k \<le> 57 then Some (k - 48) else None)"

function str_nat :: "nat \<Rightarrow> string" where
  "str_nat n = (if n < 10 then [digit_char n] else str_nat (n div 10) @ [digit_char (n mod 10)])"
  by pat_completeness auto
termination
  by (relation "measure (\<lambda>n. n)") auto

declare str_nat.simps [simp del]

definition str :: "int \<Rightarrow> string" where
  \<comment> \<open>\<^verbatim>\<open>str(n)\<close> of an integer: its decimal numeral, with a minus sign when negative.\<close>
  "str n = (if n < 0 then CHR ''-'' # str_nat (nat (- n)) else str_nat (nat n))"

definition isspace :: "char \<Rightarrow> bool" where
  \<comment> \<open>The ASCII characters for which \<^verbatim>\<open>str.isspace\<close> holds: tab, line feed, vertical tab,
      form feed, carriage return, the four separators 28 to 31, and the space.\<close>
  "isspace c = (of_char c \<in> {9::nat, 10, 11, 12, 13, 28, 29, 30, 31, 32})"

definition strip :: "string \<Rightarrow> string" where
  "strip s = rev (dropWhile isspace (rev (dropWhile isspace s)))"

fun parse_digits :: "string \<Rightarrow> nat \<Rightarrow> nat option" where
  "parse_digits [] acc = Some acc"
| "parse_digits [c] acc =
     (case digit_val c of None \<Rightarrow> None | Some v \<Rightarrow> Some (10 * acc + v))"
| "parse_digits (c # d # ds) acc =
     (if c = CHR ''_''
      then (case digit_val d of None \<Rightarrow> None | Some v \<Rightarrow> parse_digits ds (10 * acc + v))
      else (case digit_val c of None \<Rightarrow> None | Some v \<Rightarrow> parse_digits (d # ds) (10 * acc + v)))"

definition py_int :: "string \<Rightarrow> exc + int" where
  \<comment> \<open>\<^verbatim>\<open>int(s)\<close> of a string, base ten: surrounding whitespace is dropped, one sign is
      allowed, then a digit, then digits with single underscores between them; anything
      else raises \<^verbatim>\<open>ValueError\<close>. Strings are ASCII here: the digits and spaces of other
      scripts, which Python accepts too, are not in the model.\<close>
  "py_int s =
     (case strip s of
        [] \<Rightarrow> Inl ValueError
      | c # cs \<Rightarrow>
          (let neg = (c = CHR ''-'');
               body = (if c = CHR ''-'' \<or> c = CHR ''+'' then cs else c # cs)
           in case body of
                [] \<Rightarrow> Inl ValueError
              | d # ds \<Rightarrow>
                  (case digit_val d of
                     None \<Rightarrow> Inl ValueError
                   | Some v \<Rightarrow>
                       (case parse_digits ds v of
                          None \<Rightarrow> Inl ValueError
                        | Some n \<Rightarrow> Inr (if neg then - int n else int n)))))"

fun startswith :: "string \<Rightarrow> string \<Rightarrow> bool" where
  "startswith s [] = True"
| "startswith [] (p # ps) = False"
| "startswith (c # cs) (p # ps) = (c = p \<and> startswith cs ps)"

fun contains :: "string \<Rightarrow> string \<Rightarrow> bool" where
  \<comment> \<open>\<^verbatim>\<open>sub in s\<close> on strings.\<close>
  "contains [] sub = (sub = [])"
| "contains (c # cs) sub = (startswith (c # cs) sub \<or> contains cs sub)"

subsection \<open>The retry schedule\<close>

definition MAX_TRIES :: int where
  "MAX_TRIES = 20"

definition DELAYS :: "int list" where
  "DELAYS = [30, 60, 120, 300, 600, 1800, 3600, 3600, 7200]"

definition retry_delay :: "bool \<Rightarrow> int \<Rightarrow> exc + int" where
  \<comment> \<open>Lines 63 to 67: \<^verbatim>\<open>DELAYS[task.request.retries] if not config.DEBUG else 1\<close>, and the
      last delay when that raises \<^verbatim>\<open>IndexError\<close>.\<close>
  "retry_delay debug retries =
     (case (if \<not> debug then getitem DELAYS retries else Inr 1) of
        Inl IndexError \<Rightarrow> getitem DELAYS (- 1)
      | Inl e \<Rightarrow> Inl e
      | Inr delay \<Rightarrow> Inr delay)"

subsection \<open>Attachments, the state cache and the world\<close>

type_synonym user = nat

record folder =
  folder_id :: int
  folder_is_deleted :: bool
  folder_object :: string

record attachment_file =
  file_user :: user
  filename :: string
  content_type :: string
  content :: string

datatype attachment_type = AttachmentType_file | AttachmentType_link

text \<open>
  An \<^verbatim>\<open>Attachment\<close> row. The fields are the ones the module reads or sets, under the
  prefix \<open>att_\<close>: \<^verbatim>\<open>id\<close>, \<^verbatim>\<open>folder\<close>, \<^verbatim>\<open>user\<close>, \<^verbatim>\<open>title\<close>, \<^verbatim>\<open>description\<close>, \<^verbatim>\<open>type\<close>,
  \<^verbatim>\<open>protection_mode\<close>, \<^verbatim>\<open>acl\<close>, \<^verbatim>\<open>file\<close> and \<^verbatim>\<open>is_deleted\<close>.
\<close>

record attachment =
  att_id :: int
  att_folder :: folder
  att_user :: user
  att_title :: string
  att_description :: string
  att_type :: attachment_type
  att_protection_mode :: nat
  att_acl :: "user list"
  att_file :: attachment_file
  att_is_deleted :: bool

text \<open>
  The payload of a correlation token is the dictionary \<^verbatim>\<open>{'attachment_id': ...}\<close> of
  line 42; it has this one key wherever the module builds or reads it.
\<close>

record payload =
  attachment_id :: int

datatype level = INFO | WARNING | ERROR | EXCEPTION

text \<open>A log record: level, message template and the integer arguments of the message.\<close>

type_synonym log_entry = "level \<times> string \<times> int list"

text \<open>
  \<^verbatim>\<open>pdf_state_cache\<close> maps a key to the value stored and the timeout it was stored with, in
  seconds. The passing of time is not modelled, so an entry stays until it is deleted.
\<close>

type_synonym cache = "string \<rightharpoonup> string \<times> int"

definition cache_get :: "cache \<Rightarrow> string \<Rightarrow> string option" where
  "cache_get c k = map_option fst (c k)"

definition cache_set :: "cache \<Rightarrow> string \<Rightarrow> string \<Rightarrow> int \<Rightarrow> cache" where
  "cache_set c k v timeout = c(k \<mapsto> (v, timeout))"

definition cache_delete :: "cache \<Rightarrow> string \<Rightarrow> cache" where
  "cache_delete c k = c(k := None)"

record world =
  pdf_state_cache :: cache
  attachments :: "attachment list"
  next_id :: int
  signals :: "attachment list"
  log :: "log_entry list"

definition Attachment_get :: "world \<Rightarrow> int \<Rightarrow> attachment option" where
  \<comment> \<open>\<^verbatim>\<open>Attachment.get(id)\<close>: the row with this primary key, or \<^verbatim>\<open>None\<close>.\<close>
  "Attachment_get w i = find (\<lambda>a. att_id a = i) (attachments w)"

definition logger :: "level \<Rightarrow> string \<Rightarrow> int list \<Rightarrow> world \<Rightarrow> world" where
  "logger lv msg args w = w\<lparr>log := log w @ [(lv, msg, args)]\<rparr>"

text \<open>A Python dictionary keeps its keys in the order of their first insertion.\<close>

definition dict_setitem :: "('k \<times> 'v) list \<Rightarrow> 'k \<Rightarrow> 'v \<Rightarrow> ('k \<times> 'v) list" where
  "dict_setitem d k v =
     (if k \<in> set (map fst d)
      then map (\<lambda>(k', v'). if k' = k then (k', v) else (k', v')) d
      else d @ [(k, v)])"

subsection \<open>What the module is given from outside\<close>

datatype post_outcome = Raises | Response int string

text \<open>
  \<open>Raises\<close>: \<^verbatim>\<open>requests.post\<close> raised a \<^verbatim>\<open>RequestException\<close> (no connection, timeout);
  \<open>Response status text\<close>: the service answered.
\<close>

record form_data =
  converter :: string
  urlresponse :: string
  dirresponse :: string

type_synonym upload = "string \<times> string \<times> string"

text \<open>
  The settings of the plugin, the configuration of Indico and the functions imported
  from Indico, the standard library and the rest of the plugin, as they are when one
  task run or one request is served.
\<close>

record env =
  maintenance :: bool
  server_url :: string
  DEBUG :: bool
  url_for_plugin :: "string \<Rightarrow> string"
  dumps :: "payload \<Rightarrow> string \<Rightarrow> string"
  loads :: "string \<Rightarrow> string \<Rightarrow> exc + payload"
  secure_filename :: "string \<Rightarrow> string \<Rightarrow> string"
  splitext :: "string \<Rightarrow> string \<times> string"
  get_pdf_title :: "attachment \<Rightarrow> string"
  requests_post :: "string \<Rightarrow> form_data \<Rightarrow> upload \<Rightarrow> post_outcome"
  can_view :: "folder \<Rightarrow> user option \<Rightarrow> bool"
  render_attachments_folders :: "string \<Rightarrow> string"

subsection \<open>The task and Celery's retry\<close>

record task =
  retries :: int
  max_retries :: "int option"

definition submit_task :: "int \<Rightarrow> task" where
  \<comment> \<open>The task of line 35, bound with \<^verbatim>\<open>max_retries=None\<close>, at \<^verbatim>\<open>request.retries = r\<close>.\<close>
  "submit_task r = \<lparr>retries = r, max_retries = None\<rparr>"

definition task_retry :: "task \<Rightarrow> int \<Rightarrow> int option \<Rightarrow> exc" where
  \<comment> \<open>Celery's \<^verbatim>\<open>Task.retry(countdown=..., max_retries=...)\<close>, which always raises. The new
      run gets \<^verbatim>\<open>request.retries + 1\<close>; the limit is the argument, or the task's own when
      the argument is \<^verbatim>\<open>None\<close>; above the limit nothing is sent and
      \<^verbatim>\<open>MaxRetriesExceededError\<close> is raised; with no limit the task is always sent again.\<close>
  "task_retry t countdown limit =
     (let r = retries t + 1;
          m = (case limit of None \<Rightarrow> max_retries t | Some l \<Rightarrow> Some l)
      in case m of
           None \<Rightarrow> Retry countdown r
         | Some l \<Rightarrow> if r > l then MaxRetriesExceededError else Retry countdown r)"

subsection \<open>\<^verbatim>\<open>submit_attachment\<close>\<close>

definition build_request :: "env \<Rightarrow> attachment \<Rightarrow> string \<times> form_data \<times> upload" where
  \<comment> \<open>Lines 41 to 57: the URL, the form fields and the file part of the POST.\<close>
  "build_request e a =
     (let url = server_url e;
          payload = \<lparr>attachment_id = att_id a\<rparr>;
          data = \<lparr>converter = ''pdf'',
                  urlresponse = url_for_plugin e ''conversion.callback'',
                  dirresponse = dumps e payload ''pdf-conversion''\<rparr>;
          file = att_file a;
          (name, ext) = splitext e (filename file);
          fname = secure_filename e name ''attachment'' @ ext
      in (url, data, (fname, content file, content_type file)))"

definition post_and_check :: "env \<Rightarrow> string \<times> form_data \<times> upload \<Rightarrow> exc + unit" where
  \<comment> \<open>Lines 57 to 60: the POST, \<^verbatim>\<open>raise_for_status\<close> (a status from 400 to 599 raises) and
      the test for \<^verbatim>\<open>'ok'\<close> in the body.\<close>
  "post_and_check e req =
     (case req of (url, data, files) \<Rightarrow>
        (case requests_post e url data files of
           Raises \<Rightarrow> Inl RequestException
         | Response status text \<Rightarrow>
             if 400 \<le> status \<and> status < 600 then Inl RequestException
             else if \<not> contains text ''ok'' then Inl RequestException
             else Inr ()))"

definition submit_attachment :: "env \<Rightarrow> task \<Rightarrow> attachment \<Rightarrow> world \<Rightarrow> (exc + unit) \<times> world" where
  "submit_attachment e t a w =
     (if maintenance e then (Inl (task_retry t 900 None), w)
      else
        (case post_and_check e (build_request e a) of
           Inl ex \<Rightarrow>
             (let attempt = retries t + 1 in
              case retry_delay (DEBUG e) (retries t) of
                Inl ex' \<Rightarrow> (Inl ex', w)
              | Inr delay \<Rightarrow>
                  (case task_retry t delay (Some (MAX_TRIES - 1)) of
                     MaxRetriesExceededError \<Rightarrow>
                       (let w1 = logger ERROR
                                   ''Could not submit attachment %d (attempt %d/%d); giving up [%s]''
                                   [att_id a, attempt, MAX_TRIES] w
                        in (Inr (), w1\<lparr>pdf_state_cache :=
                                          cache_delete (pdf_state_cache w1) (str (att_id a))\<rparr>))
                   | Retry c r \<Rightarrow>
                       (Inl (Retry c r),
                        logger WARNING
                          ''Could not submit attachment %d (attempt %d/%d); retry in %ds [%s]''
                          [att_id a, attempt, MAX_TRIES, delay] w)
                   | ex' \<Rightarrow> (Inl ex', w)))
         | Inr u \<Rightarrow> (Inr (), logger INFO ''Submitted %r'' [] w)))"

text \<open>
  The worker: it runs the task, and when the run ends in \<open>Retry\<close> the task runs again
  with the retry count of the signal. The list holds the surroundings of the successive
  runs; the result lists what each run did. A list that ends before the task does
  leaves the last retry waiting.
\<close>

datatype execution = Scheduled int int | Returned | Raised exc

fun worker :: "env list \<Rightarrow> task \<Rightarrow> attachment \<Rightarrow> world \<Rightarrow> execution list \<times> world" where
  "worker [] t a w = ([], w)"
| "worker (e # es) t a w =
     (case submit_attachment e t a w of
        (Inl (Retry c r), w') \<Rightarrow>
          (case worker es (t\<lparr>retries := r\<rparr>) a w' of
             (xs, w'') \<Rightarrow> (Scheduled c r # xs, w''))
      | (Inl ex, w') \<Rightarrow> ([Raised ex], w')
      | (Inr u, w') \<Rightarrow> ([Returned], w'))"

subsection \<open>\<^verbatim>\<open>RHConversionFinished\<close>\<close>

record callback_request =
  form :: "string \<rightharpoonup> string"
  files :: "string \<rightharpoonup> string"

definition make_pdf_attachment :: "env \<Rightarrow> attachment \<Rightarrow> string \<Rightarrow> int \<Rightarrow> attachment" where
  \<comment> \<open>Lines 101 to 111: the new attachment with its file, and the primary key \<open>new_id\<close>
      that the flush gives it.\<close>
  "make_pdf_attachment e a data new_id =
     (let (name, ext) = splitext e (filename (att_file a));
          title = get_pdf_title e a;
          pdf_file = \<lparr>file_user = file_user (att_file a), filename = name @ ''.pdf'',
                      content_type = ''application/pdf'', content = data\<rparr>
      in \<lparr>att_id = new_id, att_folder = att_folder a, att_user = att_user a,
          att_title = title, att_description = att_description a,
          att_type = AttachmentType_file, att_protection_mode = att_protection_mode a,
          att_acl = att_acl a, att_file = pdf_file, att_is_deleted = False\<rparr>)"

definition RHConversionFinished_process ::
  "env \<Rightarrow> callback_request \<Rightarrow> world \<Rightarrow> exc + bool \<times> world" where
  \<comment> \<open>The result is the \<^verbatim>\<open>success\<close> field of the JSON answer and the world left behind. A
      form field or file part that is missing raises \<^verbatim>\<open>BadRequestKeyError\<close>.\<close>
  "RHConversionFinished_process e rq w =
     (case form rq ''directory'' of
        None \<Rightarrow> Inl (BadRequestKeyError ''directory'')
      | Some directory \<Rightarrow>
     (case loads e directory ''pdf-conversion'' of
        Inl BadData \<Rightarrow> Inr (False, logger EXCEPTION ''Received invalid payload (%s)'' [] w)
      | Inl ex \<Rightarrow> Inl ex
      | Inr payload \<Rightarrow>
     (case Attachment_get w (attachment_id payload) of
        None \<Rightarrow> Inr (True, logger INFO ''Attachment has been deleted: %s'' [] w)
      | Some a \<Rightarrow>
      if att_is_deleted a \<or> folder_is_deleted (att_folder a)
      then Inr (True, logger INFO ''Attachment has been deleted: %s'' [] w)
      else
     (case form rq ''status'' of
        None \<Rightarrow> Inl (BadRequestKeyError ''status'')
      | Some status \<Rightarrow>
      if status \<noteq> ''1''
      then Inr (False, logger ERROR ''Received invalid status %s for %s'' [] w)
      else
     (case files rq ''content'' of
        None \<Rightarrow> Inl (BadRequestKeyError ''content'')
      | Some data \<Rightarrow>
     (let pdf_attachment = make_pdf_attachment e a data (next_id w);
          w1 = w\<lparr>attachments := attachments w @ [pdf_attachment], next_id := next_id w + 1\<rparr>;
          w2 = w1\<lparr>pdf_state_cache :=
                    cache_set (pdf_state_cache w1) (str (att_id a)) ''finished'' (15 * 60)\<rparr>;
          w3 = logger INFO ''Added PDF attachment %s for %s'' [] w2;
          w4 = w3\<lparr>signals := signals w3 @ [pdf_attachment]\<rparr>
      in Inr (True, w4)))))))"

subsection \<open>\<^verbatim>\<open>RHConversionCheck\<close>\<close>

record check_response =
  finished :: "int list"
  pending :: "int list"
  containers :: "(int \<times> string) list"

fun results_dict ::
  "cache \<Rightarrow> string list \<Rightarrow> (int \<times> string option) list \<Rightarrow> exc + (int \<times> string option) list" where
  \<comment> \<open>Line 123, \<^verbatim>\<open>{int(id_): pdf_state_cache.get(id_) for id_ in ids}\<close>.\<close>
  "results_dict c [] d = Inr d"
| "results_dict c (ident # ids) d =
     (case py_int ident of
        Inl ex \<Rightarrow> Inl ex
      | Inr k \<Rightarrow> results_dict c ids (dict_setitem d k (cache_get c ident)))"

definition RHConversionCheck_process ::
  "env \<Rightarrow> user option \<Rightarrow> string list \<Rightarrow> world \<Rightarrow> exc + check_response" where
  \<comment> \<open>\<open>ids\<close> is \<^verbatim>\<open>request.args.getlist('a')\<close>, \<open>session_user\<close> is \<^verbatim>\<open>session.user\<close>.\<close>
  "RHConversionCheck_process e session_user ids w =
     (case results_dict (pdf_state_cache w) ids [] of
        Inl ex \<Rightarrow> Inl ex
      | Inr results \<Rightarrow>
          (let fin = map fst (filter (\<lambda>(ident, status). status = Some ''finished'') results);
               pen = map fst (filter (\<lambda>(ident, status). status = Some ''pending'') results);
               cont =
                 (if fin \<noteq> []
                  then fold (\<lambda>a c. if \<not> can_view e (att_folder a) session_user then c
                                    else dict_setitem c (att_id a)
                                           (render_attachments_folders e (folder_object (att_folder a))))
                         (filter (\<lambda>a. att_id a \<in> set fin) (attachments w)) []
                  else [])
           in Inr \<lparr>finished = fin, pending = pen, containers = cont\<rparr>))"

subsection \<open>The correlation token\<close>

text \<open>
  The module signs the payload with Indico's \<^verbatim>\<open>secure_serializer\<close>, which is not part of
  these sources; the handlers above take it as \<open>dumps\<close> and \<open>loads\<close>. The codec below
  is written from the specification: the token is the canonical form of the payload, a
  dot and a keyed signature of that form under the namespace. The signing function
  \<open>mac\<close> is left open.
\<close>

definition split_token :: "string \<Rightarrow> (string \<times> string) option" where
  \<comment> \<open>Modelled from the spec: the token codec is absent from the sources. A token splits
      at its first dot into the serialised payload and the signature.\<close>
  "split_token token =
     (if CHR ''.'' \<in> set token
      then Some (takeWhile (\<lambda>c. c \<noteq> CHR ''.'') token,
                 tl (dropWhile (\<lambda>c. c \<noteq> CHR ''.'') token))
      else None)"

definition encode ::
  "(string \<Rightarrow> string \<Rightarrow> string \<Rightarrow> string) \<Rightarrow> string \<Rightarrow> string \<Rightarrow> payload \<Rightarrow> string" where
  \<comment> \<open>Modelled from the spec: the token codec is absent from the sources. \<open>encode\<close> signs
      the decimal job identifier with the key and the namespace.\<close>
  "encode mac key salt p =
     (let body = str (attachment_id p) in body @ ''.'' @ mac key salt body)"

definition decode ::
  "(string \<Rightarrow> string \<Rightarrow> string \<Rightarrow> string) \<Rightarrow> string \<Rightarrow> string \<Rightarrow> string \<Rightarrow> exc + payload" where
  \<comment> \<open>Modelled from the spec: the token codec is absent from the sources. \<open>decode\<close> fails
      with the invalid-token error on a token of the wrong shape, on a signature that is
      not the one of the body under this key and namespace, and on a body that is no
      integer.\<close>
  "decode mac key salt token =
     (case split_token token of
        None \<Rightarrow> Inl BadData
      | Some (body, sig) \<Rightarrow>
          if sig \<noteq> mac key salt body then Inl BadData
          else (case py_int body of
                  Inl ex \<Rightarrow> Inl BadData
                | Inr n \<Rightarrow> Inr \<lparr>attachment_id = n\<rparr>))"

definition with_codec ::
  "(string \<Rightarrow> string \<Rightarrow> string \<Rightarrow> string) \<Rightarrow> string \<Rightarrow> env \<Rightarrow> env" where
  \<comment> \<open>Modelled from the spec: the surroundings whose serializer is the codec above.\<close>
  "with_codec mac key e =
     e\<lparr>dumps := (\<lambda>p salt. encode mac key salt p),
       loads := (\<lambda>token salt. decode mac key salt token)\<rparr>"

subsection \<open>Concrete surroundings for running the model\<close>

definition example_mac :: "string \<Rightarrow> string \<Rightarrow> string \<Rightarrow> string" where
  "example_mac key salt body = key @ ''/'' @ salt @ ''/'' @ body"

definition example_env :: "bool \<Rightarrow> post_outcome \<Rightarrow> env" where
  "example_env m answer =
     with_codec example_mac ''secret''
       \<lparr>maintenance = m, server_url = ''https://conversion.example/'', DEBUG = False,
        url_for_plugin = (\<lambda>endpoint. ''https://indico.example/'' @ endpoint),
        dumps = (\<lambda>p salt. []), loads = (\<lambda>token salt. Inl BadData),
        secure_filename = (\<lambda>name fallback. if name = [] then fallback else name),
        splitext = (\<lambda>s. (takeWhile (\<lambda>c. c \<noteq> CHR ''.'') s, dropWhile (\<lambda>c. c \<noteq> CHR ''.'') s)),
        get_pdf_title = (\<lambda>a. att_title a @ '' (PDF)''),
        requests_post = (\<lambda>url data upload. answer),
        can_view = (\<lambda>f u. True),
        render_attachments_folders = (\<lambda>obj. obj)\<rparr>"

definition example_attachment :: "int \<Rightarrow> bool \<Rightarrow> bool \<Rightarrow> attachment" where
  "example_attachment i deleted folder_deleted =
     \<lparr>att_id = i,
      att_folder = \<lparr>folder_id = 1, folder_is_deleted = folder_deleted, folder_object = ''event 7''\<rparr>,
      att_user = 3, att_title = ''slides'', att_description = [],
      att_type = AttachmentType_file, att_protection_mode = 0, att_acl = [],
      att_file = \<lparr>file_user = 3, filename = ''slides.pptx'',
                  content_type = ''application/vnd.ms-powerpoint'', content = ''PPTX''\<rparr>,
      att_is_deleted = deleted\<rparr>"

definition example_world :: "attachment list \<Rightarrow> world" where
  "example_world rows =
     \<lparr>pdf_state_cache = [''42'' \<mapsto> (''pending'', 3600)], attachments = rows, next_id = 100,
      signals = [], log = []\<rparr>"

definition example_callback :: "string \<Rightarrow> string \<Rightarrow> callback_request" where
  "example_callback token status =
     \<lparr>form = [''directory'' \<mapsto> token, ''status'' \<mapsto> status], files = [''content'' \<mapsto> ''%PDF'']\<rparr>"

subsection \<open>Predicates for stating the properties\<close>

definition submission_fails :: "env \<Rightarrow> attachment \<Rightarrow> bool" where
  \<comment> \<open>The plugin is not in maintenance and the POST for this attachment fails: the
      request raises, the status is an error, or the body lacks \<^verbatim>\<open>'ok'\<close>.\<close>
  "submission_fails e a =
     (\<not> maintenance e \<and> post_and_check e (build_request e a) = Inl RequestException)"

section \<open>Decimal numerals\<close>

text \<open>Reading back the numeral of an integer gives the integer.\<close>

lemma digit_val_digit_char: "d < 10 \<Longrightarrow> digit_val (digit_char d) = Some d"
  by (simp add: digit_val_def digit_char_def)

lemma digit_not_underscore: "digit_val c = Some v \<Longrightarrow> c \<noteq> CHR ''_''"
  by (auto simp: digit_val_def Let_def split: if_splits)

lemma digit_not_space: "digit_val c = Some v \<Longrightarrow> \<not> isspace c"
  by (auto simp: digit_val_def isspace_def Let_def split: if_splits)

lemma digit_not_sign: "digit_val c = Some v \<Longrightarrow> c \<noteq> CHR ''-'' \<and> c \<noteq> CHR ''+''"
  by (auto simp: digit_val_def Let_def split: if_splits)

lemma parse_digits_all:
  "\<forall>c\<in>set xs. digit_val c \<noteq> None \<Longrightarrow>
   parse_digits xs acc = Some (foldl (\<lambda>a c. 10 * a + the (digit_val c)) acc xs)"
proof (induction xs acc rule: parse_digits.induct)
  case (1 acc)
  show ?case by simp
next
  case (2 c acc)
  then show ?case by auto
next
  case (3 c d ds acc)
  from 3(3) obtain v where v: "digit_val c = Some v" by auto
  then have "c \<noteq> CHR ''_''" by (rule digit_not_underscore)
  with 3 v show ?case by auto
qed

lemma str_nat_digits: "\<forall>c\<in>set (str_nat n). digit_val c \<noteq> None"
proof (induction n rule: str_nat.induct)
  case (1 n)
  show ?case
  proof (cases "n < 10")
    case True
    then show ?thesis by (simp add: str_nat.simps [of n] digit_val_digit_char)
  next
    case False
    with 1 show ?thesis by (simp add: str_nat.simps [of n] digit_val_digit_char)
  qed
qed

lemma str_nat_value: "foldl (\<lambda>a c. 10 * a + the (digit_val c)) 0 (str_nat n) = n"
proof (induction n rule: str_nat.induct)
  case (1 n)
  show ?case
  proof (cases "n < 10")
    case True
    then show ?thesis by (simp add: str_nat.simps [of n] digit_val_digit_char)
  next
    case False
    with 1 show ?thesis by (simp add: str_nat.simps [of n] digit_val_digit_char)
  qed
qed

lemma str_nat_not_Nil: "str_nat n \<noteq> []"
  by (subst str_nat.simps) simp

lemma strip_no_space: "\<forall>c\<in>set s. \<not> isspace c \<Longrightarrow> strip s = s"
proof (cases s)
  case Nil
  then show ?thesis by (simp add: strip_def)
next
  case (Cons c cs)
  assume a: "\<forall>c\<in>set s. \<not> isspace c"
  then have 1: "dropWhile isspace s = s" using Cons by simp
  have "rev s \<noteq> []" using Cons by simp
  then have "\<not> isspace (hd (rev s))" using a by (metis hd_in_set set_rev)
  then have "dropWhile isspace (rev s) = rev s" by (simp add: dropWhile_eq_self_iff)
  with 1 show ?thesis by (simp add: strip_def)
qed

lemma py_int_digits:
  assumes "\<forall>c\<in>set s. digit_val c \<noteq> None" and "s \<noteq> []"
  shows "py_int s = Inr (int (foldl (\<lambda>a c. 10 * a + the (digit_val c)) 0 s))"
proof -
  from assms obtain d ds where s: "s = d # ds" by (cases s) auto
  from assms s obtain v where v: "digit_val d = Some v" by auto
  have ns: "\<forall>c\<in>set s. \<not> isspace c" using assms(1) digit_not_space by auto
  have sg: "d \<noteq> CHR ''-''" "d \<noteq> CHR ''+''" using digit_not_sign [OF v] by auto
  have pd: "parse_digits ds v = Some (foldl (\<lambda>a c. 10 * a + the (digit_val c)) v ds)"
    using assms(1) s by (intro parse_digits_all) simp
  show ?thesis
    unfolding py_int_def strip_no_space [OF ns]
    using sg v pd by (simp add: s)
qed

lemma py_int_neg_digits:
  assumes "\<forall>c\<in>set s. digit_val c \<noteq> None" and "s \<noteq> []"
  shows "py_int (CHR ''-'' # s) = Inr (- int (foldl (\<lambda>a c. 10 * a + the (digit_val c)) 0 s))"
proof -
  from assms obtain d ds where s: "s = d # ds" by (cases s) auto
  from assms s obtain v where v: "digit_val d = Some v" by auto
  have "\<not> isspace CHR ''-''" by (simp add: isspace_def)
  then have ns: "\<forall>c\<in>set (CHR ''-'' # s). \<not> isspace c" using assms(1) digit_not_space by auto
  have pd: "parse_digits ds v = Some (foldl (\<lambda>a c. 10 * a + the (digit_val c)) v ds)"
    using assms(1) s by (intro parse_digits_all) simp
  show ?thesis
    unfolding py_int_def strip_no_space [OF ns]
    using v pd by (simp add: s)
qed

lemma py_int_str: "py_int (str n) = Inr n"
proof (cases "n < 0")
  case True
  then show ?thesis
    by (simp add: str_def py_int_neg_digits [OF str_nat_digits str_nat_not_Nil] str_nat_value)
next
  case False
  then show ?thesis
    by (simp add: str_def py_int_digits [OF str_nat_digits str_nat_not_Nil] str_nat_value)
qed

lemma str_inj: "str a = str b \<Longrightarrow> a = b"
  by (metis py_int_str sum.inject(2))

section \<open>The retry schedule of the submitter\<close>

lemma retry_delay_in_range:
  "0 \<le> a \<Longrightarrow> a \<le> 8 \<Longrightarrow>
   retry_delay False a = Inr ([30, 60, 120, 300, 600, 1800, 3600, 3600, 7200] ! nat a)"
proof -
  assume "0 \<le> a" "a \<le> 8"
  then have "a = 0 \<or> a = 1 \<or> a = 2 \<or> a = 3 \<or> a = 4 \<or> a = 5 \<or> a = 6 \<or> a = 7 \<or> a = 8"
    by arith
  then show ?thesis
    by (elim disjE) (simp_all add: retry_delay_def getitem_def DELAYS_def)
qed

lemma retry_delay_saturates: "9 \<le> a \<Longrightarrow> retry_delay False a = Inr 7200"
  by (simp add: retry_delay_def getitem_def DELAYS_def)

lemma getitem_error: "getitem xs i = Inl ex \<Longrightarrow> ex = IndexError"
  by (auto simp: getitem_def split: if_splits)

lemma getitem_DELAYS_last: "getitem DELAYS (- 1) = Inr 7200"
  by (simp add: getitem_def DELAYS_def)

lemma retry_delay_total: "\<exists>d. retry_delay dbg r = Inr d"
proof (cases "if \<not> dbg then getitem DELAYS r else Inr 1")
  case (Inl ex)
  then have "ex = IndexError" by (auto dest: getitem_error split: if_splits)
  with Inl show ?thesis by (simp add: retry_delay_def getitem_DELAYS_last)
next
  case (Inr d)
  then show ?thesis by (simp add: retry_delay_def)
qed

text \<open>
  Claim C1. With \<^verbatim>\<open>config.DEBUG\<close> off, the delay chosen at retry count \<open>a\<close> is the entry of
  the schedule 30, 60, 120, 300, 600, 1800, 3600, 3600, 7200 at index \<open>a\<close> for
  \<open>a\<close> from 0 to 8, and the last entry, 7200, for every \<open>a\<close> from 9 on; the lookup
  never ends in \<^verbatim>\<open>IndexError\<close>.
\<close>

theorem retry_delay_schedule:
  "(0 \<le> a \<and> a \<le> 8 \<longrightarrow>
      retry_delay False a = Inr ([30, 60, 120, 300, 600, 1800, 3600, 3600, 7200] ! nat a))
   \<and> (9 \<le> a \<longrightarrow> retry_delay False a = Inr 7200)"
  using retry_delay_in_range retry_delay_saturates by blast

theorem retry_delay_schedule_witness:
  "retry_delay False 3 = Inr 300 \<and> retry_delay False 8 = Inr 7200 \<and> retry_delay False 25 = Inr 7200"
  using retry_delay_schedule [of 3] retry_delay_schedule [of 8] retry_delay_schedule [of 25]
  by simp

section \<open>The submitter\<close>

lemma task_retry_limit:
  "task_retry (submit_task r) c (Some l) =
     (if r + 1 > l then MaxRetriesExceededError else Retry c (r + 1))"
  by (simp add: task_retry_def submit_task_def)

lemma task_retry_no_limit: "task_retry (submit_task r) c None = Retry c (r + 1)"
  by (simp add: task_retry_def submit_task_def)

lemma submit_task_retries [simp]: "retries (submit_task r) = r"
  by (simp add: submit_task_def)

lemma submit_task_update [simp]: "(submit_task r)\<lparr>retries := r'\<rparr> = submit_task r'"
  by (simp add: submit_task_def)

lemma submit_fail_retry:
  assumes "submission_fails e a" and "r < 19"
  shows "\<exists>c w'. submit_attachment e (submit_task r) a w = (Inl (Retry c (r + 1)), w')
           \<and> pdf_state_cache w' = pdf_state_cache w \<and> retry_delay (DEBUG e) r = Inr c"
proof -
  obtain d where d: "retry_delay (DEBUG e) r = Inr d" using retry_delay_total by blast
  show ?thesis
    using assms d
    by (simp add: submit_attachment_def submission_fails_def task_retry_limit logger_def
        MAX_TRIES_def)
qed

lemma submit_fail_give_up:
  assumes "submission_fails e a" and "19 \<le> r"
  shows "submit_attachment e (submit_task r) a w =
           (Inr (),
            w\<lparr>log := log w @
                 [(ERROR, ''Could not submit attachment %d (attempt %d/%d); giving up [%s]'',
                   [att_id a, r + 1, 20])],
              pdf_state_cache := cache_delete (pdf_state_cache w) (str (att_id a))\<rparr>)"
proof -
  obtain d where d: "retry_delay (DEBUG e) r = Inr d" using retry_delay_total by blast
  show ?thesis
    using assms d
    by (simp add: submit_attachment_def submission_fails_def task_retry_limit logger_def
        MAX_TRIES_def)
qed

lemma worker_all_fail:
  assumes "\<forall>e\<in>set es. submission_fails e a"
    and "0 \<le> r" and "r \<le> 19" and "nat (20 - r) \<le> length es"
  shows "\<exists>cs w'. worker es (submit_task r) a w =
             (map (\<lambda>(c, k). Scheduled c k) (zip cs [r + 1..19]) @ [Returned], w')
           \<and> length cs = nat (19 - r)
           \<and> pdf_state_cache w' = cache_delete (pdf_state_cache w) (str (att_id a))
           \<and> last (log w') =
               (ERROR, ''Could not submit attachment %d (attempt %d/%d); giving up [%s]'',
                [att_id a, 20, 20])"
  using assms
proof (induction es arbitrary: r w)
  case Nil
  then show ?case by simp
next
  case (Cons e es)
  have f: "submission_fails e a" using Cons.prems(1) by simp
  show ?case
  proof (cases "r = 19")
    case True
    then show ?thesis
      using submit_fail_give_up [OF f, of 19 w] by simp
  next
    case False
    with Cons.prems have lt: "r < 19" by simp
    from submit_fail_retry [OF f lt, of w] obtain c w1 where
      s: "submit_attachment e (submit_task r) a w = (Inl (Retry c (r + 1)), w1)"
      and c1: "pdf_state_cache w1 = pdf_state_cache w" by blast
    have "\<exists>cs w'. worker es (submit_task (r + 1)) a w1 =
             (map (\<lambda>(c, k). Scheduled c k) (zip cs [r + 1 + 1..19]) @ [Returned], w')
           \<and> length cs = nat (19 - (r + 1))
           \<and> pdf_state_cache w' = cache_delete (pdf_state_cache w1) (str (att_id a))
           \<and> last (log w') =
               (ERROR, ''Could not submit attachment %d (attempt %d/%d); giving up [%s]'',
                [att_id a, 20, 20])"
      using Cons.prems lt by (intro Cons.IH) auto
    then obtain cs w' where
      w: "worker es (submit_task (r + 1)) a w1 =
             (map (\<lambda>(c, k). Scheduled c k) (zip cs [r + 1 + 1..19]) @ [Returned], w')"
      and l: "length cs = nat (19 - (r + 1))"
      and rest: "pdf_state_cache w' = cache_delete (pdf_state_cache w1) (str (att_id a))"
         "last (log w') =
            (ERROR, ''Could not submit attachment %d (attempt %d/%d); giving up [%s]'',
             [att_id a, 20, 20])" by blast
    have up: "[r + 1..19] = (r + 1) # [r + 1 + 1..19]" using lt by (simp add: upto_rec1)
    have "worker (e # es) (submit_task r) a w =
            (map (\<lambda>(c, k). Scheduled c k) (zip (c # cs) [r + 1..19]) @ [Returned], w')"
      using s w by (simp add: up)
    moreover have "length (c # cs) = nat (19 - r)" using l lt by simp
    ultimately show ?thesis using rest c1 by metis
  qed
qed

lemma example_env_fails:
  "submission_fails (example_env False Raises) a"
  by (simp add: submission_fails_def example_env_def with_codec_def post_and_check_def
      build_request_def Let_def split_def)

text \<open>
  Claim C2. A job whose submission fails on every run is run exactly 20 times: the first
  19 runs each end with a retry sent for the next retry count 1 to 19, the twentieth run
  returns with no retry sent, having logged that it gives up at attempt 20 of 20 and
  deleted the job's entry of the state cache, which is absent afterwards. Runs offered
  beyond the twentieth are not taken.
\<close>

theorem all_failures_give_up:
  assumes "\<forall>e\<in>set es. submission_fails e a" and "20 \<le> length es"
  shows "\<exists>cs w'. worker es (submit_task 0) a w =
             (map (\<lambda>(c, k). Scheduled c k) (zip cs [1..19]) @ [Returned], w')
           \<and> length cs = 19
           \<and> length (fst (worker es (submit_task 0) a w)) = 20
           \<and> cache_get (pdf_state_cache w') (str (att_id a)) = None
           \<and> last (log w') =
               (ERROR, ''Could not submit attachment %d (attempt %d/%d); giving up [%s]'',
                [att_id a, 20, 20])"
proof -
  from worker_all_fail [OF assms(1), of 0 w] assms(2) obtain cs w' where
    w: "worker es (submit_task 0) a w =
          (map (\<lambda>(c, k). Scheduled c k) (zip cs [1..19]) @ [Returned], w')"
    and l: "length cs = 19"
    and c: "pdf_state_cache w' = cache_delete (pdf_state_cache w) (str (att_id a))"
    and g: "last (log w') =
              (ERROR, ''Could not submit attachment %d (attempt %d/%d); giving up [%s]'',
               [att_id a, 20, 20])" by auto
  have "length [1..19::int] = 19" by simp
  then have "length (fst (worker es (submit_task 0) a w)) = 20" using w l by simp
  moreover have "cache_get (pdf_state_cache w') (str (att_id a)) = None"
    using c by (simp add: cache_get_def cache_delete_def)
  ultimately show ?thesis using w l g by blast
qed

theorem all_failures_give_up_witness:
  "submission_fails (example_env False Raises) (example_attachment 42 False False)
   \<and> 20 \<le> length (replicate 25 (example_env False Raises))
   \<and> (\<exists>cs w'. worker (replicate 25 (example_env False Raises)) (submit_task 0)
                 (example_attachment 42 False False)
                 (example_world [example_attachment 42 False False]) =
               (map (\<lambda>(c, k). Scheduled c k) (zip cs [1..19]) @ [Returned], w')
             \<and> length cs = 19
             \<and> cache_get (pdf_state_cache w') ''42'' = None)"
proof -
  have h1: "\<forall>e\<in>set (replicate 25 (example_env False Raises)).
              submission_fails e (example_attachment 42 False False)"
    by (simp add: example_env_fails)
  have h2: "20 \<le> length (replicate 25 (example_env False Raises))" by simp
  have s: "str (att_id (example_attachment 42 False False)) = ''42''"
    by code_simp
  from all_failures_give_up [OF h1 h2, of "example_world [example_attachment 42 False False]"]
  show ?thesis using example_env_fails h2 unfolding s by blast
qed

lemma submit_maintenance:
  "maintenance e \<Longrightarrow>
   submit_attachment e (submit_task r) a w = (Inl (Retry 900 (r + 1)), w)"
  by (simp add: submit_attachment_def task_retry_no_limit)

lemma worker_maintenance:
  assumes "\<forall>e\<in>set es. maintenance e"
  shows "worker (es @ es') (submit_task r) a w =
           (map (Scheduled 900) [r + 1..r + int (length es)]
              @ fst (worker es' (submit_task (r + int (length es))) a w),
            snd (worker es' (submit_task (r + int (length es))) a w))"
  using assms
proof (induction es arbitrary: r)
  case Nil
  then show ?case by simp
next
  case (Cons e es)
  have m: "maintenance e" using Cons.prems by simp
  have ih: "worker (es @ es') (submit_task (r + 1)) a w =
           (map (Scheduled 900) [r + 1 + 1..r + 1 + int (length es)]
              @ fst (worker es' (submit_task (r + 1 + int (length es))) a w),
            snd (worker es' (submit_task (r + 1 + int (length es))) a w))"
    using Cons.prems by (intro Cons.IH) simp
  have eq: "r + int (length (e # es)) = r + 1 + int (length es)" by simp
  have up: "[r + 1..r + 1 + int (length es)] = (r + 1) # [r + 1 + 1..r + 1 + int (length es)]"
    by (rule upto_rec1) simp
  show ?case
    unfolding eq up
    using submit_maintenance [OF m, of r a w] ih by simp
qed

lemma example_env_maintenance: "maintenance (example_env True answer)"
  by (simp add: example_env_def with_codec_def)

text \<open>
  Claim C3, as the code has it. In maintenance mode a run sends no request and leaves
  cache, table and log as they are; it ends with a retry sent for 900 seconds later, with
  no limit on retries, so it never gives up. The retry count is Celery's: the pause
  raises it by one like any other retry. After \<open>k\<close> pauses the next run therefore
  starts with a retry count \<open>k\<close> higher, which is the count its delay and its give-up
  are decided on.
\<close>

theorem maintenance_pause_raises_retry_count:
  assumes "\<forall>e\<in>set es. maintenance e"
  shows "(\<forall>e\<in>set es. submit_attachment e (submit_task r) a w = (Inl (Retry 900 (r + 1)), w))
       \<and> worker (es @ es') (submit_task r) a w =
           (map (Scheduled 900) [r + 1..r + int (length es)]
              @ fst (worker es' (submit_task (r + int (length es))) a w),
            snd (worker es' (submit_task (r + int (length es))) a w))"
  using assms worker_maintenance [OF assms] submit_maintenance by blast

theorem maintenance_pause_raises_retry_count_witness:
  "fst (worker ([example_env True Raises, example_env True Raises] @ [])
          (submit_task 3) (example_attachment 42 False False) (example_world [])) =
     [Scheduled 900 4, Scheduled 900 5]
   \<and> snd (worker ([example_env True Raises, example_env True Raises] @ [])
          (submit_task 3) (example_attachment 42 False False) (example_world [])) =
     example_world []"
proof -
  have h: "\<forall>e\<in>set [example_env True Raises, example_env True Raises]. maintenance e"
    by (simp add: example_env_maintenance)
  have up: "[3 + 1..3 + int (length [example_env True Raises, example_env True Raises])] =
              [4, 5]"
    by (simp add: upto_rec1)
  from maintenance_pause_raises_retry_count [OF h, of 3 "example_attachment 42 False False"
      "example_world []" "[]"]
  have "worker ([example_env True Raises, example_env True Raises] @ []) (submit_task 3)
          (example_attachment 42 False False) (example_world []) =
        (map (Scheduled 900) [3 + 1..3 + int (length [example_env True Raises, example_env True Raises])]
           @ fst (worker [] (submit_task
               (3 + int (length [example_env True Raises, example_env True Raises])))
               (example_attachment 42 False False) (example_world [])),
         snd (worker [] (submit_task
               (3 + int (length [example_env True Raises, example_env True Raises])))
               (example_attachment 42 False False) (example_world [])))"
    by (rule conjunct2)
  then show ?thesis
    unfolding up by (simp only: worker.simps fst_conv snd_conv list.map append_Nil2 simp_thms)
qed

text \<open>
  Claim C3 as stated fails: a pause does not leave the retry count unchanged. One pause
  followed by one failed submission ends with the retry count 2 and the second delay of
  the schedule, 60 seconds, where an uncounted pause would give the count 1 and 30
  seconds; and after 19 pauses the first failed submission already gives up and deletes
  the cache entry.
\<close>

theorem maintenance_pause_uncounted_counterexample:
  "submit_attachment (example_env True Raises) (submit_task 0)
       (example_attachment 42 False False) (example_world []) =
     (Inl (Retry 900 1), example_world [])
   \<and> fst (worker ([example_env True Raises] @ [example_env False Raises]) (submit_task 0)
            (example_attachment 42 False False) (example_world [])) =
       [Scheduled 900 1, Scheduled 60 2]
   \<and> fst (worker (replicate 19 (example_env True Raises) @ [example_env False Raises])
            (submit_task 0) (example_attachment 42 False False) (example_world [])) =
       map (Scheduled 900) [1..19] @ [Returned]
   \<and> cache_get (pdf_state_cache (snd (worker
            (replicate 19 (example_env True Raises) @ [example_env False Raises])
            (submit_task 0) (example_attachment 42 False False) (example_world [])))) ''42'' = None"
proof -
  let ?m = "example_env True Raises" and ?f = "example_env False Raises"
  let ?a = "example_attachment 42 False False" and ?w = "example_world []"
  have s: "str (att_id ?a) = ''42''" by code_simp
  have 1: "submit_attachment ?m (submit_task 0) ?a ?w = (Inl (Retry 900 1), ?w)"
    using submit_maintenance [OF example_env_maintenance, of Raises 0 ?a ?w] by simp
  have d: "retry_delay (DEBUG ?f) 1 = Inr 60"
    by (simp add: example_env_def with_codec_def retry_delay_def getitem_def DELAYS_def)
  obtain c w' where
    c: "submit_attachment ?f (submit_task 1) ?a ?w = (Inl (Retry c (1 + 1)), w')"
    and "retry_delay (DEBUG ?f) 1 = Inr c"
    using submit_fail_retry [OF example_env_fails, of 1 ?a ?w] by auto
  with d have c60: "c = 60" by simp
  have m1: "\<forall>e\<in>set [?m]. maintenance e" by (simp add: example_env_maintenance)
  have 2: "fst (worker ([?m] @ [?f]) (submit_task 0) ?a ?w) = [Scheduled 900 1, Scheduled 60 2]"
    unfolding worker_maintenance [OF m1] using c c60 by simp
  have m19: "\<forall>e\<in>set (replicate 19 ?m). maintenance e" by (simp add: example_env_maintenance)
  have g: "worker [?f] (submit_task 19) ?a ?w =
             ([Returned],
              ?w\<lparr>log := log ?w @
                 [(ERROR, ''Could not submit attachment %d (attempt %d/%d); giving up [%s]'',
                   [att_id ?a, 19 + 1, 20])],
                 pdf_state_cache := cache_delete (pdf_state_cache ?w) (str (att_id ?a))\<rparr>)"
    using submit_fail_give_up [OF example_env_fails, of 19 ?a ?w] by simp
  have 3: "fst (worker (replicate 19 ?m @ [?f]) (submit_task 0) ?a ?w) =
             map (Scheduled 900) [1..19] @ [Returned]"
    unfolding worker_maintenance [OF m19] using g by simp
  have 4: "cache_get (pdf_state_cache (snd (worker (replicate 19 ?m @ [?f]) (submit_task 0) ?a ?w)))
             ''42'' = None"
    unfolding worker_maintenance [OF m19] using g by (simp add: s cache_get_def cache_delete_def)
  from 1 2 3 4 show ?thesis by blast
qed

section \<open>The correlation token\<close>

lemma str_no_dot: "CHR ''.'' \<notin> set (str n)"
proof -
  have "digit_val CHR ''.'' = None" by (simp add: digit_val_def)
  then have "CHR ''.'' \<notin> set (str_nat k)" for k
    using str_nat_digits [of k] by auto
  then show ?thesis by (simp add: str_def)
qed

lemma split_token_body:
  assumes "CHR ''.'' \<notin> set body"
  shows "split_token (body @ CHR ''.'' # sig) = Some (body, sig)"
proof -
  have p: "\<And>c. c \<in> set body \<Longrightarrow> c \<noteq> CHR ''.''" using assms by auto
  have "takeWhile (\<lambda>c. c \<noteq> CHR ''.'') (body @ CHR ''.'' # sig) = body"
    using p by (simp add: takeWhile_append2)
  moreover have "dropWhile (\<lambda>c. c \<noteq> CHR ''.'') (body @ CHR ''.'' # sig) = CHR ''.'' # sig"
    using p by (simp add: dropWhile_append2)
  ultimately show ?thesis by (simp add: split_token_def)
qed

lemma decode_encode: "decode mac key salt (encode mac key salt p) = Inr p"
  by (simp add: decode_def encode_def Let_def split_token_body [OF str_no_dot] py_int_str)

lemma decode_error: "decode mac key salt token = Inl ex \<Longrightarrow> ex = BadData"
  by (auto simp: decode_def split: option.splits if_splits sum.splits)

lemma decode_empty: "decode mac key salt [] = Inl BadData"
  by (simp add: decode_def split_token_def)

lemma decode_other_namespace:
  assumes "mac key salt' (str (attachment_id p)) \<noteq> mac key salt (str (attachment_id p))"
  shows "decode mac key salt (encode mac key salt' p) = Inl BadData"
  using assms
  by (simp add: decode_def encode_def Let_def split_token_body [OF str_no_dot])

text \<open>
  Claim C4. Decoding the token that encodes a payload, under the same key and the
  namespace \<^verbatim>\<open>'pdf-conversion'\<close>, succeeds and gives the payload back, whatever the
  signing function and the key are. So the token that \<^verbatim>\<open>submit_attachment\<close> puts into
  \<^verbatim>\<open>dirresponse\<close> decodes in the callback to the identifier of the attachment.
\<close>

theorem token_round_trip:
  "decode mac key ''pdf-conversion'' (encode mac key ''pdf-conversion'' p) = Inr p
   \<and> loads (with_codec mac key e)
        (dirresponse (fst (snd (build_request (with_codec mac key e) a))))
        ''pdf-conversion'' = Inr \<lparr>attachment_id = att_id a\<rparr>"
  by (simp add: decode_encode with_codec_def build_request_def Let_def split_def)

section \<open>The callback of the conversion service\<close>

lemma find_append_Some: "find P xs = Some a \<Longrightarrow> find P (xs @ ys) = Some a"
  by (induction xs) auto

lemma process_success:
  assumes "form rq ''directory'' = Some token"
    and "loads e token ''pdf-conversion'' = Inr p"
    and "Attachment_get w (attachment_id p) = Some a"
    and "\<not> att_is_deleted a" and "\<not> folder_is_deleted (att_folder a)"
    and "form rq ''status'' = Some ''1''"
    and "files rq ''content'' = Some data"
  shows "RHConversionFinished_process e rq w =
           Inr (True,
                w\<lparr>attachments := attachments w @ [make_pdf_attachment e a data (next_id w)],
                  next_id := next_id w + 1,
                  pdf_state_cache := cache_set (pdf_state_cache w) (str (att_id a)) ''finished'' 900,
                  log := log w @ [(INFO, ''Added PDF attachment %s for %s'', [])],
                  signals := signals w @ [make_pdf_attachment e a data (next_id w)]\<rparr>)"
  using assms by (simp add: RHConversionFinished_process_def Let_def logger_def)

text \<open>
  Claim C5. A callback whose token does not decode is answered with \<^verbatim>\<open>success=False\<close>, and
  nothing but the log changes: the state cache, the attachment table, the key counter and
  the signals sent are as before, so no attachment is created.
\<close>

theorem invalid_token_rejected:
  assumes "form rq ''directory'' = Some token"
    and "loads e token ''pdf-conversion'' = Inl BadData"
  shows "RHConversionFinished_process e rq w =
           Inr (False, w\<lparr>log := log w @ [(EXCEPTION, ''Received invalid payload (%s)'', [])]\<rparr>)
       \<and> (\<exists>w'. RHConversionFinished_process e rq w = Inr (False, w')
              \<and> pdf_state_cache w' = pdf_state_cache w \<and> attachments w' = attachments w
              \<and> next_id w' = next_id w \<and> signals w' = signals w)"
  using assms by (simp add: RHConversionFinished_process_def logger_def)

lemma example_callback_form:
  "form (example_callback token status) ''directory'' = Some token"
  "form (example_callback token status) ''status'' = Some status"
  "files (example_callback token status) ''content'' = Some ''%PDF''"
  by (simp_all add: example_callback_def)

lemma example_token_valid:
  "loads (example_env m answer) ''42.secret/pdf-conversion/42'' ''pdf-conversion'' =
     Inr \<lparr>attachment_id = 42\<rparr>"
proof -
  have "encode example_mac ''secret'' ''pdf-conversion'' \<lparr>attachment_id = 42\<rparr> =
          ''42.secret/pdf-conversion/42''"
    by code_simp
  then have "decode example_mac ''secret'' ''pdf-conversion'' ''42.secret/pdf-conversion/42'' =
          Inr \<lparr>attachment_id = 42\<rparr>"
    using decode_encode [of example_mac "''secret''" "''pdf-conversion''" "\<lparr>attachment_id = 42\<rparr>"]
    by simp
  then show ?thesis by (simp add: example_env_def with_codec_def)
qed

lemma example_tokens_invalid:
  "loads (example_env m answer) [] ''pdf-conversion'' = Inl BadData"
  "loads (example_env m answer) ''42.secret/other/42'' ''pdf-conversion'' = Inl BadData"
  "loads (example_env m answer) ''43.secret/pdf-conversion/42'' ''pdf-conversion'' = Inl BadData"
proof -
  have "decode example_mac ''secret'' ''pdf-conversion'' [] = Inl BadData"
    by (rule decode_empty)
  moreover have "decode example_mac ''secret'' ''pdf-conversion'' ''42.secret/other/42'' =
      Inl BadData"
    by code_simp
  moreover have "decode example_mac ''secret'' ''pdf-conversion'' ''43.secret/pdf-conversion/42'' =
      Inl BadData"
    by code_simp
  ultimately show
    "loads (example_env m answer) [] ''pdf-conversion'' = Inl BadData"
    "loads (example_env m answer) ''42.secret/other/42'' ''pdf-conversion'' = Inl BadData"
    "loads (example_env m answer) ''43.secret/pdf-conversion/42'' ''pdf-conversion'' = Inl BadData"
    by (simp_all add: example_env_def with_codec_def)
qed

theorem invalid_token_rejected_witness:
  "RHConversionFinished_process (example_env False Raises) (example_callback [] ''1'')
       (example_world [example_attachment 42 False False]) =
     Inr (False, (example_world [example_attachment 42 False False])
             \<lparr>log := [(EXCEPTION, ''Received invalid payload (%s)'', [])]\<rparr>)
   \<and> RHConversionFinished_process (example_env False Raises)
       (example_callback ''42.secret/other/42'' ''1'')
       (example_world [example_attachment 42 False False]) =
     Inr (False, (example_world [example_attachment 42 False False])
             \<lparr>log := [(EXCEPTION, ''Received invalid payload (%s)'', [])]\<rparr>)
   \<and> RHConversionFinished_process (example_env False Raises)
       (example_callback ''43.secret/pdf-conversion/42'' ''1'')
       (example_world [example_attachment 42 False False]) =
     Inr (False, (example_world [example_attachment 42 False False])
             \<lparr>log := [(EXCEPTION, ''Received invalid payload (%s)'', [])]\<rparr>)"
proof -
  let ?e = "example_env False Raises"
  let ?w = "example_world [example_attachment 42 False False]"
  have l: "log ?w = []"
    by (simp add: example_world_def)
  have f: "form (example_callback token ''1'') ''directory'' = Some token" for token
    by (rule example_callback_form)
  have t1: "loads ?e [] ''pdf-conversion'' = Inl BadData"
    and t2: "loads ?e ''42.secret/other/42'' ''pdf-conversion'' = Inl BadData"
    and t3: "loads ?e ''43.secret/pdf-conversion/42'' ''pdf-conversion'' = Inl BadData"
    by (rule example_tokens_invalid)+
  show ?thesis
    using invalid_token_rejected [OF f t1, of ?w] invalid_token_rejected [OF f t2, of ?w]
      invalid_token_rejected [OF f t3, of ?w]
    by (simp add: l)
qed

text \<open>
  Claim C6. A callback with a valid token whose attachment is not in the table, or is
  marked deleted, or lies in a folder marked deleted, is answered with \<^verbatim>\<open>success=True\<close>,
  and nothing but the log changes: no attachment is created and the state cache is as
  before.
\<close>

theorem deleted_job_callback_succeeds:
  assumes "form rq ''directory'' = Some token"
    and "loads e token ''pdf-conversion'' = Inr p"
    and "Attachment_get w (attachment_id p) = None
         \<or> (\<exists>a. Attachment_get w (attachment_id p) = Some a
                \<and> (att_is_deleted a \<or> folder_is_deleted (att_folder a)))"
  shows "RHConversionFinished_process e rq w =
           Inr (True, w\<lparr>log := log w @ [(INFO, ''Attachment has been deleted: %s'', [])]\<rparr>)
       \<and> (\<exists>w'. RHConversionFinished_process e rq w = Inr (True, w')
              \<and> pdf_state_cache w' = pdf_state_cache w \<and> attachments w' = attachments w
              \<and> next_id w' = next_id w \<and> signals w' = signals w)"
  using assms by (auto simp: RHConversionFinished_process_def logger_def)

theorem deleted_job_callback_succeeds_witness:
  "RHConversionFinished_process (example_env False Raises)
       (example_callback ''42.secret/pdf-conversion/42'' ''1'') (example_world []) =
     Inr (True, (example_world [])
             \<lparr>log := [(INFO, ''Attachment has been deleted: %s'', [])]\<rparr>)
   \<and> RHConversionFinished_process (example_env False Raises)
       (example_callback ''42.secret/pdf-conversion/42'' ''1'')
       (example_world [example_attachment 42 True False]) =
     Inr (True, (example_world [example_attachment 42 True False])
             \<lparr>log := [(INFO, ''Attachment has been deleted: %s'', [])]\<rparr>)
   \<and> RHConversionFinished_process (example_env False Raises)
       (example_callback ''42.secret/pdf-conversion/42'' ''1'')
       (example_world [example_attachment 42 False True]) =
     Inr (True, (example_world [example_attachment 42 False True])
             \<lparr>log := [(INFO, ''Attachment has been deleted: %s'', [])]\<rparr>)"
proof -
  let ?p = "\<lparr>attachment_id = 42\<rparr>"
  have l: "log (example_world rows) = []" for rows
    by (simp add: example_world_def)
  have h1: "Attachment_get (example_world []) (attachment_id ?p) = None
         \<or> (\<exists>a. Attachment_get (example_world []) (attachment_id ?p) = Some a
                \<and> (att_is_deleted a \<or> folder_is_deleted (att_folder a)))"
    by (simp add: Attachment_get_def example_world_def)
  have h2: "Attachment_get (example_world [example_attachment 42 True False]) (attachment_id ?p) = None
         \<or> (\<exists>a. Attachment_get (example_world [example_attachment 42 True False])
                   (attachment_id ?p) = Some a
                \<and> (att_is_deleted a \<or> folder_is_deleted (att_folder a)))"
    by (simp add: Attachment_get_def example_world_def example_attachment_def)
  have h3: "Attachment_get (example_world [example_attachment 42 False True]) (attachment_id ?p) = None
         \<or> (\<exists>a. Attachment_get (example_world [example_attachment 42 False True])
                   (attachment_id ?p) = Some a
                \<and> (att_is_deleted a \<or> folder_is_deleted (att_folder a)))"
    by (simp add: Attachment_get_def example_world_def example_attachment_def)
  have f: "form (example_callback ''42.secret/pdf-conversion/42'' ''1'') ''directory'' =
             Some ''42.secret/pdf-conversion/42''"
    by (rule example_callback_form)
  have t: "loads (example_env False Raises) ''42.secret/pdf-conversion/42'' ''pdf-conversion'' =
             Inr ?p"
    by (rule example_token_valid)
  show ?thesis
    using deleted_job_callback_succeeds [OF f t h1] deleted_job_callback_succeeds [OF f t h2]
      deleted_job_callback_succeeds [OF f t h3]
    by (simp add: l)
qed

text \<open>
  Claim C7. A callback with a valid token for an attachment that exists and is not
  deleted, whose \<^verbatim>\<open>status\<close> field is anything but \<^verbatim>\<open>'1'\<close>, is answered with
  \<^verbatim>\<open>success=False\<close>, and nothing but the log changes: the state cache, and with it the
  entry of the attachment, is as before, and no attachment is created.
\<close>

theorem bad_status_changes_nothing:
  assumes "form rq ''directory'' = Some token"
    and "loads e token ''pdf-conversion'' = Inr p"
    and "Attachment_get w (attachment_id p) = Some a"
    and "\<not> att_is_deleted a" and "\<not> folder_is_deleted (att_folder a)"
    and "form rq ''status'' = Some status" and "status \<noteq> ''1''"
  shows "RHConversionFinished_process e rq w =
           Inr (False, w\<lparr>log := log w @ [(ERROR, ''Received invalid status %s for %s'', [])]\<rparr>)
       \<and> (\<exists>w'. RHConversionFinished_process e rq w = Inr (False, w')
              \<and> pdf_state_cache w' = pdf_state_cache w
              \<and> pdf_state_cache w' (str (att_id a)) = pdf_state_cache w (str (att_id a))
              \<and> attachments w' = attachments w
              \<and> next_id w' = next_id w \<and> signals w' = signals w)"
  using assms by (simp add: RHConversionFinished_process_def logger_def)

lemma example_attachment_get:
  "Attachment_get (example_world [example_attachment 42 False False])
     (attachment_id \<lparr>attachment_id = 42\<rparr>) = Some (example_attachment 42 False False)"
  by (simp add: Attachment_get_def example_world_def example_attachment_def)

lemma example_attachment_live:
  "\<not> att_is_deleted (example_attachment i False False)"
  "\<not> folder_is_deleted (att_folder (example_attachment i False False))"
  by (simp_all add: example_attachment_def)

theorem bad_status_changes_nothing_witness:
  "RHConversionFinished_process (example_env False Raises)
       (example_callback ''42.secret/pdf-conversion/42'' ''0'')
       (example_world [example_attachment 42 False False]) =
     Inr (False, (example_world [example_attachment 42 False False])
             \<lparr>log := [(ERROR, ''Received invalid status %s for %s'', [])]\<rparr>)"
proof -
  have l: "log (example_world rows) = []" for rows
    by (simp add: example_world_def)
  have ne: "''0'' \<noteq> ''1''" by simp
  have f: "form (example_callback ''42.secret/pdf-conversion/42'' ''0'') ''directory'' =
             Some ''42.secret/pdf-conversion/42''"
    and st: "form (example_callback ''42.secret/pdf-conversion/42'' ''0'') ''status'' = Some ''0''"
    by (rule example_callback_form)+
  have t: "loads (example_env False Raises) ''42.secret/pdf-conversion/42'' ''pdf-conversion'' =
             Inr \<lparr>attachment_id = 42\<rparr>"
    by (rule example_token_valid)
  show ?thesis
    using bad_status_changes_nothing [OF f t example_attachment_get example_attachment_live st ne]
    by (simp add: l)
qed

lemma make_pdf_attachment_id [simp]: "att_id (make_pdf_attachment e a data k) = k"
  by (simp add: make_pdf_attachment_def Let_def split_def)

lemma cache_get_set: "cache_get (cache_set c k v t) k = Some v"
  by (simp add: cache_get_def cache_set_def)

text \<open>
  Claim C8. The successful callback is not idempotent. Delivered twice for the same
  valid attachment, it is answered with \<^verbatim>\<open>success=True\<close> both times, each delivery adds
  its own PDF attachment to the table (two rows, with the keys the two flushes hand out,
  which differ) and sends its own signal, and after each delivery the state cache holds
  \<^verbatim>\<open>'finished'\<close> under the key of the source attachment.
\<close>

theorem success_callback_not_idempotent:
  assumes "form rq ''directory'' = Some token"
    and "loads e token ''pdf-conversion'' = Inr p"
    and "Attachment_get w (attachment_id p) = Some a"
    and "\<not> att_is_deleted a" and "\<not> folder_is_deleted (att_folder a)"
    and "form rq ''status'' = Some ''1''"
    and "files rq ''content'' = Some data"
  shows "\<exists>w1 w2.
           RHConversionFinished_process e rq w = Inr (True, w1)
         \<and> RHConversionFinished_process e rq w1 = Inr (True, w2)
         \<and> attachments w1 = attachments w @ [make_pdf_attachment e a data (next_id w)]
         \<and> attachments w2 = attachments w @ [make_pdf_attachment e a data (next_id w),
                                               make_pdf_attachment e a data (next_id w + 1)]
         \<and> make_pdf_attachment e a data (next_id w) \<noteq> make_pdf_attachment e a data (next_id w + 1)
         \<and> signals w2 = signals w @ [make_pdf_attachment e a data (next_id w),
                                       make_pdf_attachment e a data (next_id w + 1)]
         \<and> cache_get (pdf_state_cache w1) (str (att_id a)) = Some ''finished''
         \<and> cache_get (pdf_state_cache w2) (str (att_id a)) = Some ''finished''"
proof -
  let ?pdf = "make_pdf_attachment e a data"
  let ?w1 = "w\<lparr>attachments := attachments w @ [?pdf (next_id w)],
                next_id := next_id w + 1,
                pdf_state_cache := cache_set (pdf_state_cache w) (str (att_id a)) ''finished'' 900,
                log := log w @ [(INFO, ''Added PDF attachment %s for %s'', [])],
                signals := signals w @ [?pdf (next_id w)]\<rparr>"
  let ?w2 = "?w1\<lparr>attachments := attachments ?w1 @ [?pdf (next_id ?w1)],
                next_id := next_id ?w1 + 1,
                pdf_state_cache := cache_set (pdf_state_cache ?w1) (str (att_id a)) ''finished'' 900,
                log := log ?w1 @ [(INFO, ''Added PDF attachment %s for %s'', [])],
                signals := signals ?w1 @ [?pdf (next_id ?w1)]\<rparr>"
  have first: "RHConversionFinished_process e rq w = Inr (True, ?w1)"
    using assms by (rule process_success)
  have "Attachment_get ?w1 (attachment_id p) = Some a"
    using assms(3) by (simp add: Attachment_get_def find_append_Some)
  then have second: "RHConversionFinished_process e rq ?w1 = Inr (True, ?w2)"
    using assms(1,2,4-7) process_success by blast
  have differ: "?pdf (next_id w) \<noteq> ?pdf (next_id w + 1)"
  proof
    assume "?pdf (next_id w) = ?pdf (next_id w + 1)"
    then have "att_id (?pdf (next_id w)) = att_id (?pdf (next_id w + 1))" by simp
    then show False by simp
  qed
  have a1: "attachments ?w1 = attachments w @ [?pdf (next_id w)]" by simp
  have a2: "attachments ?w2 = attachments w @ [?pdf (next_id w), ?pdf (next_id w + 1)]" by simp
  have s2: "signals ?w2 = signals w @ [?pdf (next_id w), ?pdf (next_id w + 1)]" by simp
  have c1: "cache_get (pdf_state_cache ?w1) (str (att_id a)) = Some ''finished''"
    by (simp add: cache_get_set)
  have c2: "cache_get (pdf_state_cache ?w2) (str (att_id a)) = Some ''finished''"
    by (simp add: cache_get_set)
  from first second a1 a2 differ s2 c1 c2 show ?thesis by blast
qed

theorem success_callback_not_idempotent_witness:
  "\<exists>w1 w2.
      RHConversionFinished_process (example_env False Raises)
        (example_callback ''42.secret/pdf-conversion/42'' ''1'')
        (example_world [example_attachment 42 False False]) = Inr (True, w1)
    \<and> RHConversionFinished_process (example_env False Raises)
        (example_callback ''42.secret/pdf-conversion/42'' ''1'') w1 = Inr (True, w2)
    \<and> map att_id (attachments w2) = [42, 100, 101]
    \<and> map att_title (attachments w2) = [''slides'', ''slides (PDF)'', ''slides (PDF)'']
    \<and> cache_get (pdf_state_cache w2) ''42'' = Some ''finished''"
proof -
  let ?e = "example_env False Raises"
  let ?rq = "example_callback ''42.secret/pdf-conversion/42'' ''1''"
  let ?a = "example_attachment 42 False False"
  let ?w = "example_world [?a]"
  have f: "form ?rq ''directory'' = Some ''42.secret/pdf-conversion/42''"
    and st: "form ?rq ''status'' = Some ''1''"
    and fl: "files ?rq ''content'' = Some ''%PDF''"
    by (rule example_callback_form)+
  have t: "loads ?e ''42.secret/pdf-conversion/42'' ''pdf-conversion'' = Inr \<lparr>attachment_id = 42\<rparr>"
    by (rule example_token_valid)
  have s: "str (att_id ?a) = ''42''" by code_simp
  have n: "next_id ?w = 100" "attachments ?w = [?a]" by (simp_all add: example_world_def)
  have ti: "att_title (make_pdf_attachment ?e ?a d k) = ''slides (PDF)''" for d k
    by (simp add: make_pdf_attachment_def Let_def split_def example_env_def with_codec_def
        example_attachment_def)
  have ai: "att_id ?a = 42" "att_title ?a = ''slides''" by (simp_all add: example_attachment_def)
  from success_callback_not_idempotent [OF f t example_attachment_get example_attachment_live st fl]
  obtain w1 w2 where
    "RHConversionFinished_process ?e ?rq ?w = Inr (True, w1)"
    "RHConversionFinished_process ?e ?rq w1 = Inr (True, w2)"
    "attachments w2 = attachments ?w @ [make_pdf_attachment ?e ?a ''%PDF'' (next_id ?w),
                                        make_pdf_attachment ?e ?a ''%PDF'' (next_id ?w + 1)]"
    "cache_get (pdf_state_cache w2) (str (att_id ?a)) = Some ''finished''"
    by blast
  then show ?thesis
    unfolding s by (intro exI [of _ w1] exI [of _ w2]) (simp add: n ti ai)
qed

section \<open>The polling endpoint\<close>

lemma dict_setitem_known:
  "k \<in> set ks \<Longrightarrow> dict_setitem (map (\<lambda>k. (k, g k)) ks) k (g k) = map (\<lambda>k. (k, g k)) ks"
  by (simp add: dict_setitem_def comp_def)

lemma dict_setitem_new:
  "k \<notin> set ks \<Longrightarrow>
   dict_setitem (map (\<lambda>k. (k, g k)) ks) k (g k) = map (\<lambda>k. (k, g k)) (ks @ [k])"
  by (simp add: dict_setitem_def comp_def)

lemma results_dict_canonical:
  assumes "distinct ks"
  shows "\<exists>ks'. results_dict c (map str ns) (map (\<lambda>k. (k, cache_get c (str k))) ks) =
                 Inr (map (\<lambda>k. (k, cache_get c (str k))) ks')
             \<and> distinct ks' \<and> set ks' = set ks \<union> set ns
             \<and> (distinct (ks @ ns) \<longrightarrow> ks' = ks @ ns)"
  using assms
proof (induction ns arbitrary: ks)
  case Nil
  then show ?case by auto
next
  case (Cons n ns)
  show ?case
  proof (cases "n \<in> set ks")
    case True
    from Cons.IH [OF Cons.prems] obtain ks' where
      "results_dict c (map str ns) (map (\<lambda>k. (k, cache_get c (str k))) ks) =
         Inr (map (\<lambda>k. (k, cache_get c (str k))) ks')"
      "distinct ks'" "set ks' = set ks \<union> set ns" by blast
    then show ?thesis
      using True dict_setitem_known [of n ks "\<lambda>k. cache_get c (str k)"]
      by (intro exI [of _ ks']) (auto simp: py_int_str)
  next
    case False
    then have d: "distinct (ks @ [n])" using Cons.prems by simp
    from Cons.IH [OF d] obtain ks' where
      "results_dict c (map str ns) (map (\<lambda>k. (k, cache_get c (str k))) (ks @ [n])) =
         Inr (map (\<lambda>k. (k, cache_get c (str k))) ks')"
      "distinct ks'" "set ks' = set (ks @ [n]) \<union> set ns"
      "distinct ((ks @ [n]) @ ns) \<longrightarrow> ks' = (ks @ [n]) @ ns" by blast
    then show ?thesis
      using False dict_setitem_new [of n ks "\<lambda>k. cache_get c (str k)"]
      by (intro exI [of _ ks']) (auto simp: py_int_str)
  qed
qed

lemma check_single:
  assumes "py_int s = Inr k"
  shows "\<exists>r. RHConversionCheck_process e u [s] w = Inr r
           \<and> finished r = (if cache_get (pdf_state_cache w) s = Some ''finished'' then [k] else [])
           \<and> pending r = (if cache_get (pdf_state_cache w) s = Some ''pending'' then [k] else [])"
  using assms by (simp add: RHConversionCheck_process_def dict_setitem_def Let_def)

lemma check_canonical:
  "\<exists>r. RHConversionCheck_process e u (map str ns) w = Inr r
     \<and> set (finished r) = {n \<in> set ns. cache_get (pdf_state_cache w) (str n) = Some ''finished''}
     \<and> set (pending r) = {n \<in> set ns. cache_get (pdf_state_cache w) (str n) = Some ''pending''}
     \<and> distinct (finished r) \<and> distinct (pending r)
     \<and> (distinct ns \<longrightarrow>
          finished r = filter (\<lambda>n. cache_get (pdf_state_cache w) (str n) = Some ''finished'') ns
        \<and> pending r = filter (\<lambda>n. cache_get (pdf_state_cache w) (str n) = Some ''pending'') ns)"
proof -
  let ?c = "pdf_state_cache w"
  let ?h = "\<lambda>k. (k, cache_get ?c (str k))"
  from results_dict_canonical [of "[]" ?c ns] obtain ks' where
    r: "results_dict ?c (map str ns) [] = Inr (map ?h ks')"
    and d: "distinct ks'" and s: "set ks' = set ns"
    and o: "distinct ns \<longrightarrow> ks' = ns" by auto
  have sel: "map fst (filter (\<lambda>(ident, status). status = Some v) (map ?h ks')) =
             filter (\<lambda>n. cache_get ?c (str n) = Some v) ks'" for v
    by (induction ks') auto
  obtain cont where
    p: "RHConversionCheck_process e u (map str ns) w =
          Inr \<lparr>finished = filter (\<lambda>n. cache_get ?c (str n) = Some ''finished'') ks',
               pending = filter (\<lambda>n. cache_get ?c (str n) = Some ''pending'') ks',
               containers = cont\<rparr>"
    using r by (simp add: RHConversionCheck_process_def Let_def sel)
  let ?r = "\<lparr>finished = filter (\<lambda>n. cache_get ?c (str n) = Some ''finished'') ks',
               pending = filter (\<lambda>n. cache_get ?c (str n) = Some ''pending'') ks',
               containers = cont\<rparr>"
  have 1: "set (finished ?r) = {n \<in> set ns. cache_get ?c (str n) = Some ''finished''}"
    using s by simp
  have 2: "set (pending ?r) = {n \<in> set ns. cache_get ?c (str n) = Some ''pending''}"
    using s by simp
  have 3: "distinct (finished ?r)" "distinct (pending ?r)"
    using d by simp_all
  have 4: "distinct ns \<longrightarrow>
          finished ?r = filter (\<lambda>n. cache_get ?c (str n) = Some ''finished'') ns
        \<and> pending ?r = filter (\<lambda>n. cache_get ?c (str n) = Some ''pending'') ns"
    using o by simp
  from p 1 2 3 4 show ?thesis by blast
qed

text \<open>
  Claim C9. For job ids sent as their decimal numerals, the query answers with every id
  whose cache entry is \<^verbatim>\<open>'finished'\<close> in the finished list and every id whose entry is
  \<^verbatim>\<open>'pending'\<close> in the pending list, each once and, for ids sent once, in the order sent;
  an id with no entry is in neither list. For the ids 1, 2, 3 and a cache holding
  finished for 1 and pending for 2, the lists are [1] and [2].
\<close>

theorem status_query_classifies:
  "(\<exists>r. RHConversionCheck_process e u (map str ns) w = Inr r
     \<and> set (finished r) = {n \<in> set ns. cache_get (pdf_state_cache w) (str n) = Some ''finished''}
     \<and> set (pending r) = {n \<in> set ns. cache_get (pdf_state_cache w) (str n) = Some ''pending''}
     \<and> distinct (finished r) \<and> distinct (pending r)
     \<and> (distinct ns \<longrightarrow>
          finished r = filter (\<lambda>n. cache_get (pdf_state_cache w) (str n) = Some ''finished'') ns
        \<and> pending r = filter (\<lambda>n. cache_get (pdf_state_cache w) (str n) = Some ''pending'') ns)
     \<and> (\<forall>n. cache_get (pdf_state_cache w) (str n) = None \<longrightarrow>
              n \<notin> set (finished r) \<and> n \<notin> set (pending r)))
   \<and> (pdf_state_cache w' = [''1'' \<mapsto> (''finished'', t1), ''2'' \<mapsto> (''pending'', t2)] \<longrightarrow>
        (\<exists>r. RHConversionCheck_process e u [''1'', ''2'', ''3''] w' = Inr r
            \<and> finished r = [1] \<and> pending r = [2]))"
proof
  from check_canonical [of e u ns w] obtain r where
    r: "RHConversionCheck_process e u (map str ns) w = Inr r"
    "set (finished r) = {n \<in> set ns. cache_get (pdf_state_cache w) (str n) = Some ''finished''}"
    "set (pending r) = {n \<in> set ns. cache_get (pdf_state_cache w) (str n) = Some ''pending''}"
    "distinct (finished r)" "distinct (pending r)"
    "distinct ns \<longrightarrow>
          finished r = filter (\<lambda>n. cache_get (pdf_state_cache w) (str n) = Some ''finished'') ns
        \<and> pending r = filter (\<lambda>n. cache_get (pdf_state_cache w) (str n) = Some ''pending'') ns"
    by blast
  have "\<forall>n. cache_get (pdf_state_cache w) (str n) = None \<longrightarrow>
              n \<notin> set (finished r) \<and> n \<notin> set (pending r)"
    using r(2,3) by auto
  with r show "\<exists>r. RHConversionCheck_process e u (map str ns) w = Inr r
     \<and> set (finished r) = {n \<in> set ns. cache_get (pdf_state_cache w) (str n) = Some ''finished''}
     \<and> set (pending r) = {n \<in> set ns. cache_get (pdf_state_cache w) (str n) = Some ''pending''}
     \<and> distinct (finished r) \<and> distinct (pending r)
     \<and> (distinct ns \<longrightarrow>
          finished r = filter (\<lambda>n. cache_get (pdf_state_cache w) (str n) = Some ''finished'') ns
        \<and> pending r = filter (\<lambda>n. cache_get (pdf_state_cache w) (str n) = Some ''pending'') ns)
     \<and> (\<forall>n. cache_get (pdf_state_cache w) (str n) = None \<longrightarrow>
              n \<notin> set (finished r) \<and> n \<notin> set (pending r))"
    by blast
next
  show "pdf_state_cache w' = [''1'' \<mapsto> (''finished'', t1), ''2'' \<mapsto> (''pending'', t2)] \<longrightarrow>
        (\<exists>r. RHConversionCheck_process e u [''1'', ''2'', ''3''] w' = Inr r
            \<and> finished r = [1] \<and> pending r = [2])"
  proof
    assume c: "pdf_state_cache w' = [''1'' \<mapsto> (''finished'', t1), ''2'' \<mapsto> (''pending'', t2)]"
    have m: "map str [1, 2, 3] = [''1'', ''2'', ''3'']" by code_simp
    have s: "str 1 = ''1''" "str 2 = ''2''" "str 3 = ''3''" by code_simp+
    from check_canonical [of e u "[1, 2, 3]" w'] obtain r where
      "RHConversionCheck_process e u (map str [1, 2, 3]) w' = Inr r"
      "finished r = filter (\<lambda>n. cache_get (pdf_state_cache w') (str n) = Some ''finished'') [1, 2, 3]"
      "pending r = filter (\<lambda>n. cache_get (pdf_state_cache w') (str n) = Some ''pending'') [1, 2, 3]"
      by auto
    then show "\<exists>r. RHConversionCheck_process e u [''1'', ''2'', ''3''] w' = Inr r
            \<and> finished r = [1] \<and> pending r = [2]"
      unfolding m by (intro exI [of _ r]) (simp add: c s cache_get_def)
  qed
qed

theorem status_query_classifies_witness:
  "\<exists>r. RHConversionCheck_process (example_env False Raises) None [''1'', ''2'', ''3'']
          ((example_world [])\<lparr>pdf_state_cache :=
              [''1'' \<mapsto> (''finished'', 900), ''2'' \<mapsto> (''pending'', 3600)]\<rparr>) = Inr r
      \<and> finished r = [1] \<and> pending r = [2]"
proof -
  let ?w = "(example_world [])\<lparr>pdf_state_cache :=
              [''1'' \<mapsto> (''finished'', 900), ''2'' \<mapsto> (''pending'', 3600)]\<rparr>"
  have c: "pdf_state_cache ?w = [''1'' \<mapsto> (''finished'', 900), ''2'' \<mapsto> (''pending'', 3600)]"
    by simp
  from status_query_classifies [of "example_env False Raises" None "[]" "example_world []"
      ?w 900 3600] c
  show ?thesis by blast
qed

section \<open>The keys of the state cache\<close>

lemma finished_then_polled:
  assumes "form rq ''directory'' = Some token"
    and "loads e token ''pdf-conversion'' = Inr p"
    and "Attachment_get w (attachment_id p) = Some a"
    and "\<not> att_is_deleted a" and "\<not> folder_is_deleted (att_folder a)"
    and "form rq ''status'' = Some ''1''"
    and "files rq ''content'' = Some data"
  shows "\<exists>w1 r. RHConversionFinished_process e rq w = Inr (True, w1)
           \<and> pdf_state_cache w1 (str (att_id a)) = Some (''finished'', 900)
           \<and> RHConversionCheck_process e' u [str (att_id a)] w1 = Inr r
           \<and> finished r = [att_id a] \<and> pending r = []"
proof -
  let ?w1 = "w\<lparr>attachments := attachments w @ [make_pdf_attachment e a data (next_id w)],
                next_id := next_id w + 1,
                pdf_state_cache := cache_set (pdf_state_cache w) (str (att_id a)) ''finished'' 900,
                log := log w @ [(INFO, ''Added PDF attachment %s for %s'', [])],
                signals := signals w @ [make_pdf_attachment e a data (next_id w)]\<rparr>"
  have 1: "RHConversionFinished_process e rq w = Inr (True, ?w1)"
    using assms by (rule process_success)
  have 2: "pdf_state_cache ?w1 (str (att_id a)) = Some (''finished'', 900)"
    by (simp add: cache_set_def)
  then have g: "cache_get (pdf_state_cache ?w1) (str (att_id a)) = Some ''finished''"
    by (simp add: cache_get_def)
  from check_single [OF py_int_str, of e' u "att_id a" ?w1] obtain r where
    "RHConversionCheck_process e' u [str (att_id a)] ?w1 = Inr r"
    "finished r = [att_id a]" "pending r = []"
    unfolding g by auto
  with 1 2 show ?thesis by blast
qed

lemma given_up_then_polled:
  assumes "submission_fails e a"
  shows "\<exists>w1 r. submit_attachment e (submit_task 19) a w = (Inr (), w1)
           \<and> pdf_state_cache w1 (str (att_id a)) = None
           \<and> RHConversionCheck_process e' u [str (att_id a)] w1 = Inr r
           \<and> finished r = [] \<and> pending r = []"
proof -
  let ?w1 = "w\<lparr>log := log w @
                 [(ERROR, ''Could not submit attachment %d (attempt %d/%d); giving up [%s]'',
                   [att_id a, 19 + 1, 20])],
              pdf_state_cache := cache_delete (pdf_state_cache w) (str (att_id a))\<rparr>"
  have 1: "submit_attachment e (submit_task 19) a w = (Inr (), ?w1)"
    using submit_fail_give_up [OF assms, of 19 w] by simp
  have 2: "pdf_state_cache ?w1 (str (att_id a)) = None"
    by (simp add: cache_delete_def)
  then have g: "cache_get (pdf_state_cache ?w1) (str (att_id a)) = None"
    by (simp add: cache_get_def)
  from check_single [OF py_int_str, of e' u "att_id a" ?w1] obtain r where
    "RHConversionCheck_process e' u [str (att_id a)] ?w1 = Inr r"
    "finished r = []" "pending r = []"
    unfolding g by auto
  with 1 2 show ?thesis by blast
qed

text \<open>
  Claim C10. The three operations use the same key for a job. The callback stores
  \<^verbatim>\<open>'finished'\<close> under the decimal numeral of the attachment id, and a poll for that
  numeral then lists the id as finished. The give-up of the submitter deletes the entry
  under the same numeral, and a poll for it then lists the id nowhere. The poll looks a
  request string up as it was received, and reports it under the integer it reads as.
\<close>

theorem cache_keys_coincide:
  "(form rq ''directory'' = Some token \<and> loads e token ''pdf-conversion'' = Inr p
      \<and> Attachment_get w (attachment_id p) = Some a
      \<and> \<not> att_is_deleted a \<and> \<not> folder_is_deleted (att_folder a)
      \<and> form rq ''status'' = Some ''1'' \<and> files rq ''content'' = Some data \<longrightarrow>
      (\<exists>w1 r. RHConversionFinished_process e rq w = Inr (True, w1)
           \<and> pdf_state_cache w1 (str (att_id a)) = Some (''finished'', 900)
           \<and> RHConversionCheck_process e' u [str (att_id a)] w1 = Inr r
           \<and> finished r = [att_id a] \<and> pending r = []))
   \<and> (submission_fails e a \<longrightarrow>
      (\<exists>w1 r. submit_attachment e (submit_task 19) a w = (Inr (), w1)
           \<and> pdf_state_cache w1 (str (att_id a)) = None
           \<and> RHConversionCheck_process e' u [str (att_id a)] w1 = Inr r
           \<and> finished r = [] \<and> pending r = []))
   \<and> (py_int s = Inr k \<longrightarrow>
      (\<exists>r. RHConversionCheck_process e' u [s] w = Inr r
           \<and> finished r = (if cache_get (pdf_state_cache w) s = Some ''finished'' then [k] else [])
           \<and> pending r = (if cache_get (pdf_state_cache w) s = Some ''pending'' then [k] else [])))"
  using finished_then_polled [of rq token e p w a data e' u]
    given_up_then_polled [of e a w e' u] check_single [of s k e' u w]
  by blast

theorem cache_keys_coincide_witness:
  "(\<exists>w1 r. RHConversionFinished_process (example_env False Raises)
               (example_callback ''42.secret/pdf-conversion/42'' ''1'')
               (example_world [example_attachment 42 False False]) = Inr (True, w1)
           \<and> pdf_state_cache w1 ''42'' = Some (''finished'', 900)
           \<and> RHConversionCheck_process (example_env False Raises) None [''42''] w1 = Inr r
           \<and> finished r = [42] \<and> pending r = [])
   \<and> (\<exists>w1 r. submit_attachment (example_env False Raises) (submit_task 19)
               (example_attachment 42 False False)
               (example_world [example_attachment 42 False False]) = (Inr (), w1)
           \<and> pdf_state_cache w1 ''42'' = None
           \<and> RHConversionCheck_process (example_env False Raises) None [''42''] w1 = Inr r
           \<and> finished r = [] \<and> pending r = [])
   \<and> (\<exists>r. RHConversionCheck_process (example_env False Raises) None [''42'']
               (example_world [example_attachment 42 False False]) = Inr r
           \<and> finished r = [] \<and> pending r = [42])"
proof -
  let ?e = "example_env False Raises"
  let ?rq = "example_callback ''42.secret/pdf-conversion/42'' ''1''"
  let ?a = "example_attachment 42 False False"
  let ?w = "example_world [?a]"
  have f: "form ?rq ''directory'' = Some ''42.secret/pdf-conversion/42''"
    and st: "form ?rq ''status'' = Some ''1''"
    and fl: "files ?rq ''content'' = Some ''%PDF''"
    by (rule example_callback_form)+
  have t: "loads ?e ''42.secret/pdf-conversion/42'' ''pdf-conversion'' = Inr \<lparr>attachment_id = 42\<rparr>"
    by (rule example_token_valid)
  have s: "str 42 = ''42''" by code_simp
  have ai: "att_id ?a = 42" by (simp add: example_attachment_def)
  have pi: "py_int ''42'' = Inr 42" by code_simp
  have c: "cache_get (pdf_state_cache ?w) ''42'' = Some ''pending''"
    by (simp add: example_world_def cache_get_def)
  have fails: "submission_fails ?e ?a" by (rule example_env_fails)
  note k = cache_keys_coincide [of ?rq "''42.secret/pdf-conversion/42''" ?e
      "\<lparr>attachment_id = 42\<rparr>" ?w ?a "''%PDF''" ?e None "''42''" 42]
  have 1: "\<exists>w1 r. RHConversionFinished_process ?e ?rq ?w = Inr (True, w1)
           \<and> pdf_state_cache w1 (str (att_id ?a)) = Some (''finished'', 900)
           \<and> RHConversionCheck_process ?e None [str (att_id ?a)] w1 = Inr r
           \<and> finished r = [att_id ?a] \<and> pending r = []"
    using k f t example_attachment_get example_attachment_live st fl by blast
  have 2: "\<exists>w1 r. submit_attachment ?e (submit_task 19) ?a ?w = (Inr (), w1)
           \<and> pdf_state_cache w1 (str (att_id ?a)) = None
           \<and> RHConversionCheck_process ?e None [str (att_id ?a)] w1 = Inr r
           \<and> finished r = [] \<and> pending r = []"
    using k fails by blast
  have 3: "\<exists>r. RHConversionCheck_process ?e None [''42''] ?w = Inr r
           \<and> finished r = (if cache_get (pdf_state_cache ?w) ''42'' = Some ''finished'' then [42] else [])
           \<and> pending r = (if cache_get (pdf_state_cache ?w) ''42'' = Some ''pending'' then [42] else [])"
    using k pi by blast
  from 1 2 3 show ?thesis unfolding ai s c by simp
qed

end
